theory Spec2Isabelle
  imports Main "HOL-Library.Sublist" "HOL-Library.AList"
begin

section \<open>Data model\<close>

text \<open>
  JavaScript values that flow through the tester: field values of a candidate object, the
  properties of a response body, and instance ids. Numbers are the integers the tester
  produces (\<open>Math.floor\<close> results) or receives as ids; on these primitive values the strict
  equality \<open>===\<close> used by \<open>Array.indexOf\<close> is equality of the value.
\<close>

datatype jsval =
    JUndefined
  | JNull
  | JBool bool
  | JNum int
  | JStr string
  | JObj "(string \<times> jsval) list"

text \<open>A JavaScript object literal: its own properties, in insertion order.\<close>

type_synonym jsobject = "(string \<times> jsval) list"

text \<open>\<open>o[k]\<close>: reading a missing property yields \<open>undefined\<close>.\<close>

definition get_prop :: "jsobject \<Rightarrow> string \<Rightarrow> jsval" where
  "get_prop ob k = (case map_of ob k of None \<Rightarrow> JUndefined | Some v \<Rightarrow> v)"

text \<open>
  \<open>class field_def\<close>: the getters \<open>name\<close>, \<open>type\<close>, \<open>max_length\<close>, \<open>ignore\<close>, \<open>from\<close>,
  \<open>values\<close>, \<open>dont_delete\<close>. \<open>None\<close> is the \<open>null\<close> the constructor stores for an absent option.
\<close>

record field_def =
  f_name :: string
  f_type :: string
  f_max_length :: "nat option"
  f_ignore :: bool
  f_from :: "string option"
  f_values :: "jsval list option"
  f_dont_delete :: bool

text \<open>
  What a method throws: a \<open>TypeError\<close> of the runtime, an \<open>Error\<close> with its message, or the
  reason of a rejected client promise.
\<close>

datatype error =
    TypeError
  | Error string
  | Rejection jsval

text \<open>\<open>field_def.valid_types\<close>.\<close>

definition valid_types :: "string list" where
  "valid_types =
     [''sequence'', ''number'', ''string'', ''date'', ''timestamp'', ''json'', ''uuid'', ''bool'',
      ''binary'']"

text \<open>
  The options of one field in the configuration; \<open>None\<close> is an option that is not given.
\<close>

record field_options =
  o_type :: "string option"
  o_max_length :: "nat option"
  o_ignore :: "bool option"
  o_from :: "string option"
  o_values :: "jsval list option"
  o_dont_delete :: "bool option"

text \<open>
  The constructor of \<open>field_def\<close>: it throws on a missing or unknown type; \<open>x || null\<close> and
  \<open>x || false\<close> turn a falsy option into the default.
\<close>

definition new_field_def :: "string \<Rightarrow> field_options \<Rightarrow> error + field_def" where
  "new_field_def name options =
     (case o_type options of
        None \<Rightarrow> Inl (Error ''A field must have a type.'')
      | Some t \<Rightarrow>
          if t = [] then Inl (Error ''A field must have a type.'')
          else if t \<notin> set valid_types
          then Inl (Error (''Field type '' @ t @ '' is not recognized.''))
          else Inr \<lparr>f_name = name,
                    f_type = t,
                    f_max_length = (case o_max_length options of
                                      None \<Rightarrow> None
                                    | Some m \<Rightarrow> if m = 0 then None else Some m),
                    f_ignore = (o_ignore options = Some True),
                    f_from = (case o_from options of
                                None \<Rightarrow> None
                              | Some fr \<Rightarrow> if fr = [] then None else Some fr),
                    f_values = o_values options,
                    f_dont_delete = (o_dont_delete options = Some True)\<rparr>)"

text \<open>
  The object literal built by \<open>create_resource_defs\<close>, restricted to the properties the
  resolver and the cleanup read: \<open>name\<close>, \<open>fields\<close> (in \<open>Object.keys\<close> order) and \<open>children\<close>.
  The tree is not changed after \<open>load_config\<close>; only \<open>last\<close> is, and it lives in the state.
\<close>

datatype resource_def =
  ResourceDef (def_name: string) (def_fields: "field_def list") (def_children: "resource_def list")

text \<open>
  A definition object is identified by its position: the child indices from \<open>_all_defs\<close>
  down to it. \<open>create_resource_defs\<close> passes the enclosing definition as \<open>parent\<close> of each
  child, so \<open>def.parent\<close> is the position without its last index, and \<open>undefined\<close> at the
  top level.
\<close>

type_synonym ref = "nat list"

fun deref :: "resource_def list \<Rightarrow> ref \<Rightarrow> resource_def option" where
  "deref defs [] = None"
| "deref defs [i] = (if i < length defs then Some (defs ! i) else None)"
| "deref defs (i # j # p) =
     (if i < length defs then deref (def_children (defs ! i)) (j # p) else None)"

definition parent :: "ref \<Rightarrow> ref option" where
  "parent d = (if length d \<le> 1 then None else Some (butlast d))"

text \<open>The client: a handle is the sequence of member invocations made from the root api.\<close>

type_synonym call = "string \<times> jsval list"
type_synonym handle = "call list"

datatype event =
    Create handle jsobject
  | DeleteById handle jsval

record http_response =
  statusCode :: int

text \<open>
  What a client promise resolves to: \<open>{response, resource}\<close>. \<open>None\<close> stands for a missing
  (falsy) \<open>response\<close> or \<open>resource\<close>.
\<close>

record result =
  response :: "http_response option"
  resource :: "jsobject option"

datatype reply =
    Rejected jsval
  | Resolved "result option"

text \<open>
  The collaborators outside the repository, as parameters: \<open>pluralize.singular\<close>,
  \<open>Math.floor(Math.random() * n)\<close>, \<open>crypto.randomBytes(n)[i]\<close>, \<open>moment().format()\<close> and
  \<open>uuid.v4()\<close>, each indexed by the number of draws made before it; which members a client
  handle has; and what the remote answers to a call, given the calls made so far.
\<close>

record env =
  singular :: "string \<Rightarrow> string"
  random_floor :: "nat \<Rightarrow> nat \<Rightarrow> nat"
  random_bytes :: "nat \<Rightarrow> nat \<Rightarrow> nat"
  moment_format :: "nat \<Rightarrow> string"
  uuid_v4 :: "nat \<Rightarrow> string"
  has_member :: "handle \<Rightarrow> string \<Rightarrow> bool"
  remote :: "event list \<Rightarrow> event \<Rightarrow> reply"

text \<open>\<open>def.last = { id, obj }\<close>.\<close>

record last_instance =
  last_id :: jsval
  last_obj :: result

text \<open>
  The mutable state of a run: \<open>last\<close> of every definition, the \<open>_cleanups\<close> array, the
  remote calls issued so far, and the number of random or clock draws made.
\<close>

record tester =
  lasts :: "ref \<Rightarrow> last_instance option"
  cleanups :: "(ref \<times> jsval) list"
  trace :: "event list"
  draws :: nat

text \<open>
  An \<open>async\<close> method either returns, throws (the mutations made before the throw stay), or
  has not returned within the recursion budget it was given.
\<close>

datatype 'a outcome =
    OutOfFuel
  | Throws error tester
  | Returns 'a tester

section \<open>find_resource_def\<close>

text \<open>\<open>name.split('/')\<close>.\<close>

fun split :: "string \<Rightarrow> string list" where
  "split [] = [[]]"
| "split (c # cs) =
     (if c = CHR ''/'' then [] # split cs
      else (c # hd (split cs)) # tl (split cs))"

text \<open>The inner \<open>for\<close> loop: the first index whose definition is named \<open>segment\<close>.\<close>

fun index_of_name :: "string \<Rightarrow> resource_def list \<Rightarrow> nat option" where
  "index_of_name segment [] = None"
| "index_of_name segment (d # ds) =
     (if def_name d = segment then Some 0 else map_option Suc (index_of_name segment ds))"

text \<open>
  The \<open>while\<close> loop. \<open>defs\<close> is \<open>_all_defs\<close> while \<open>current\<close> is \<open>null\<close> and
  \<open>current.children\<close> afterwards; a segment that matches nothing leaves both as they are.
\<close>

fun find_loop :: "resource_def list \<Rightarrow> string list \<Rightarrow> ref option \<Rightarrow> ref option" where
  "find_loop defs [] current = current"
| "find_loop defs (segment # segments) current =
     (case index_of_name segment defs of
        None \<Rightarrow> find_loop defs segments current
      | Some i \<Rightarrow>
          find_loop (def_children (defs ! i)) segments
            (Some ((case current of None \<Rightarrow> [] | Some c \<Rightarrow> c) @ [i])))"

definition find_resource_def :: "resource_def list \<Rightarrow> string \<Rightarrow> ref option" where
  "find_resource_def all_defs name = find_loop all_defs (split name) None"

section \<open>get_api_for_def\<close>

text \<open>The first loop: \<open>resources.unshift(current.name)\<close> up the parent links.\<close>

function resource_names :: "resource_def list \<Rightarrow> ref \<Rightarrow> string list \<Rightarrow> error + string list" where
  "resource_names all_defs current resources =
     (case deref all_defs current of
        None \<Rightarrow> Inl TypeError
      | Some d \<Rightarrow>
          (case parent current of
             None \<Rightarrow> Inr (def_name d # resources)
           | Some p \<Rightarrow> resource_names all_defs p (def_name d # resources)))"
  by pat_completeness auto
termination
  by (relation "measure (\<lambda>(all_defs, current, resources). length current)")
     (auto simp: parent_def split: if_splits)

declare resource_names.simps [simp del]

text \<open>
  The second loop. \<open>is_even\<close> is taken before the \<open>shift\<close>; an even step invokes the
  singular member with \<open>def.parent.last.id\<close>, an odd step the member named by the segment
  with no argument. Reading \<open>id\<close> of a missing \<open>last\<close> and applying a missing member throw.
\<close>

fun bind_api :: "env \<Rightarrow> tester \<Rightarrow> ref \<Rightarrow> string list \<Rightarrow> handle \<Rightarrow> error + handle" where
  "bind_api E s d [] api = Inr api"
| "bind_api E s d (resource_name # resources) api =
     (if even (length (resource_name # resources)) then
        (case parent d of
           None \<Rightarrow> Inl TypeError
         | Some p \<Rightarrow>
             (case lasts s p of
                None \<Rightarrow> Inl TypeError
              | Some l \<Rightarrow>
                  if has_member E api (singular E resource_name)
                  then bind_api E s d resources (api @ [(singular E resource_name, [last_id l])])
                  else Inl TypeError))
      else
        (if has_member E api resource_name
         then bind_api E s d resources (api @ [(resource_name, [])])
         else Inl TypeError))"

definition get_api_for_def :: "env \<Rightarrow> resource_def list \<Rightarrow> tester \<Rightarrow> ref \<Rightarrow> error + handle" where
  "get_api_for_def E all_defs s d =
     (case resource_names all_defs d [] of
        Inl e \<Rightarrow> Inl e
      | Inr resources \<Rightarrow> bind_api E s d resources [])"

section \<open>make_test_object\<close>

definition parent_ref :: string where
  "parent_ref = ''<parent>''"

definition default_chars :: string where
  "default_chars = ''abcdefghijklmnopqrstuwxyzABCDEFGHIJKLMNOPQRSTUWXYZ0123456789''"

text \<open>The \<open>for\<close> loop of \<open>random_string\<close>: \<open>m\<close> positions remain, starting at index \<open>i\<close>.\<close>

fun random_loop :: "(nat \<Rightarrow> nat) \<Rightarrow> string \<Rightarrow> nat \<Rightarrow> nat \<Rightarrow> nat \<Rightarrow> string" where
  "random_loop randomBytes chars i 0 cursor = []"
| "random_loop randomBytes chars i (Suc m) cursor =
     chars ! ((cursor + randomBytes i) mod length chars)
       # random_loop randomBytes chars (Suc i) m (cursor + randomBytes i)"

definition random_string :: "env \<Rightarrow> nat \<Rightarrow> nat \<Rightarrow> string option \<Rightarrow> error + string" where
  "random_string E k len chars_arg =
     (let chars = (case chars_arg of
                     None \<Rightarrow> default_chars
                   | Some c \<Rightarrow> if c = [] then default_chars else c)
      in if length chars > 256
         then Inl (Error ''Argument 'chars' should not have more than 256 characters, otherwise unpredictability will be broken'')
         else Inr (random_loop (random_bytes E k) chars 0 len 0))"

text \<open>An entry of \<open>deps\<close>: \<open>{ field, from }\<close>.\<close>

record dep =
  dep_field :: string
  dep_from :: string

text \<open>
  The candidate under construction: the object \<open>o\<close>, the \<open>deps\<close> array and the number of
  draws made. \<open>o[k] = v\<close> replaces the value of an existing key and appends a new one.
\<close>

type_synonym candidate = "jsobject \<times> dep list \<times> nat"

text \<open>The \<open>switch (f.type)\<close>; a type without a \<open>case\<close> assigns nothing.\<close>

definition make_by_type :: "env \<Rightarrow> field_def \<Rightarrow> candidate \<Rightarrow> error + candidate" where
  "make_by_type E f acc =
     (case acc of (ob, deps, k) \<Rightarrow>
        if f_type f = ''number'' then
          Inr (AList.update (f_name f) (JNum (int (random_floor E k 65536))) ob, deps, Suc k)
        else if f_type f = ''string'' then
          (let len = (case f_max_length f of
                        None \<Rightarrow> 512
                      | Some m \<Rightarrow> if m = 0 then 512 else m)
           in case random_string E k len None of
                Inl e \<Rightarrow> Inl e
              | Inr str \<Rightarrow> Inr (AList.update (f_name f) (JStr str) ob, deps, Suc k))
        else if f_type f = ''date'' then
          Inr (AList.update (f_name f) (JStr (moment_format E k)) ob, deps, Suc k)
        else if f_type f = ''uuid'' then
          Inr (AList.update (f_name f) (JStr (uuid_v4 E k)) ob, deps, Suc k)
        else if f_type f = ''bool'' then
          (let val = random_floor E k 65536 + 1
           in Inr (AList.update (f_name f) (JBool (val mod 2 = 0)) ob, deps, Suc k))
        else if f_type f = ''json'' then
          Inr (AList.update (f_name f) (JObj []) ob, deps, k)
        else if f_type f = ''binary'' then
          Inr (ob, deps, k)
        else Inr (ob, deps, k))"

text \<open>
  The branches of the callback for a field without a truthy \<open>from\<close>: a value picked from a
  non-empty \<open>values\<close>, or else one made by type.
\<close>

definition make_value :: "env \<Rightarrow> field_def \<Rightarrow> candidate \<Rightarrow> error + candidate" where
  "make_value E f acc =
     (case acc of (ob, deps, k) \<Rightarrow>
        (case f_values f of
           Some (v # vs) \<Rightarrow>
             (let idx = random_floor E k (length (v # vs))
              in Inr (AList.update (f_name f)
                        (if idx < length (v # vs) then (v # vs) ! idx else JUndefined) ob,
                      deps, Suc k))
         | _ \<Rightarrow> make_by_type E f acc))"

text \<open>The callback of \<open>forEach\<close>. Reading \<open>last\<close> of a missing parent throws.\<close>

definition make_field ::
  "env \<Rightarrow> resource_def list \<Rightarrow> tester \<Rightarrow> ref \<Rightarrow> field_def \<Rightarrow> candidate \<Rightarrow> error + candidate" where
  "make_field E all_defs s d f acc =
     (case acc of (ob, deps, k) \<Rightarrow>
        (case f_from f of
           None \<Rightarrow> make_value E f acc
         | Some fr \<Rightarrow>
             if fr = [] then make_value E f acc
             else if fr = parent_ref then
               (case parent d of
                  None \<Rightarrow> Inl TypeError
                | Some p \<Rightarrow>
                    (case lasts s p of
                       Some l \<Rightarrow> Inr (AList.update (f_name f) (last_id l) ob, deps, k)
                     | None \<Rightarrow>
                         (case deref all_defs p of
                            None \<Rightarrow> Inl TypeError
                          | Some pd \<Rightarrow>
                              Inr (ob, deps @ [\<lparr>dep_field = f_name f, dep_from = def_name pd\<rparr>], k))))
             else Inr (ob, deps @ [\<lparr>dep_field = f_name f, dep_from = fr\<rparr>], k)))"

fun make_fields ::
  "env \<Rightarrow> resource_def list \<Rightarrow> tester \<Rightarrow> ref \<Rightarrow> field_def list \<Rightarrow> candidate \<Rightarrow> error + candidate" where
  "make_fields E all_defs s d [] acc = Inr acc"
| "make_fields E all_defs s d (f # fs) acc =
     (case make_field E all_defs s d f acc of
        Inl e \<Rightarrow> Inl e
      | Inr acc' \<Rightarrow> make_fields E all_defs s d fs acc')"

text \<open>Returns \<open>{ instance: o, deps }\<close> and the number of draws made so far.\<close>

definition make_test_object ::
  "env \<Rightarrow> resource_def list \<Rightarrow> tester \<Rightarrow> ref \<Rightarrow> error + candidate" where
  "make_test_object E all_defs s d =
     (case deref all_defs d of
        None \<Rightarrow> Inl TypeError
      | Some rd \<Rightarrow> make_fields E all_defs s d (def_fields rd) ([], [], draws s))"

section \<open>create_resource_from_def\<close>

text \<open>
  The \<open>for\<close> loop over \<open>obj.deps\<close>; \<open>create\<close> is the recursive call, one level down.
\<close>

fun resolve_deps ::
  "resource_def list \<Rightarrow> (ref \<Rightarrow> tester \<Rightarrow> result option outcome) \<Rightarrow> dep list \<Rightarrow> jsobject
     \<Rightarrow> tester \<Rightarrow> jsobject outcome" where
  "resolve_deps all_defs create [] instance s = Returns instance s"
| "resolve_deps all_defs create (x # xs) instance s =
     (case find_resource_def all_defs (dep_from x) of
        None \<Rightarrow> Throws (Error (''No resource_def for '' @ dep_from x @ ''.'')) s
      | Some dep_def \<Rightarrow>
          (case create dep_def s of
             OutOfFuel \<Rightarrow> OutOfFuel
           | Throws e s1 \<Rightarrow> Throws e s1
           | Returns res s1 \<Rightarrow>
               (case res of
                  None \<Rightarrow> Throws (Error (''Error creating resource_def '' @ dep_from x @ ''.'')) s1
                | Some r \<Rightarrow>
                    (case resource r of
                       None \<Rightarrow>
                         Throws (Error (''Error creating resource_def '' @ dep_from x @ ''.'')) s1
                     | Some body \<Rightarrow>
                         resolve_deps all_defs create xs
                           (AList.update (dep_field x) (get_prop body ''id'') instance) s1))))"

text \<open>The tail of the method, from \<open>if (!def.last)\<close> on.\<close>

definition create_or_cached ::
  "env \<Rightarrow> resource_def list \<Rightarrow> ref \<Rightarrow> jsobject \<Rightarrow> tester \<Rightarrow> result option outcome" where
  "create_or_cached E all_defs d instance s =
     (case lasts s d of
        Some l \<Rightarrow> Returns (Some (last_obj l)) s
      | None \<Rightarrow>
          (case get_api_for_def E all_defs s d of
             Inl e \<Rightarrow> Throws e s
           | Inr api \<Rightarrow>
               if \<not> has_member E api ''create'' then Throws TypeError s
               else
                 (let s1 = s\<lparr>trace := trace s @ [Create api instance]\<rparr>
                  in case remote E (trace s) (Create api instance) of
                       Rejected x \<Rightarrow> Throws (Rejection x) s1
                     | Resolved None \<Rightarrow> Returns None s1
                     | Resolved (Some r) \<Rightarrow>
                         (case resource r of
                            None \<Rightarrow> Throws TypeError s1
                          | Some body \<Rightarrow>
                              Returns (Some r)
                                (s1\<lparr>lasts := (lasts s1)
                                    (d \<mapsto> \<lparr>last_id = get_prop body ''id'', last_obj = r\<rparr>)\<rparr>)))))"

fun create_resource_from_def ::
  "env \<Rightarrow> resource_def list \<Rightarrow> nat \<Rightarrow> ref \<Rightarrow> tester \<Rightarrow> result option outcome" where
  "create_resource_from_def E all_defs 0 d s = OutOfFuel"
| "create_resource_from_def E all_defs (Suc n) d s =
     (case make_test_object E all_defs s d of
        Inl e \<Rightarrow> Throws e s
      | Inr (instance, deps, k) \<Rightarrow>
          (case resolve_deps all_defs (create_resource_from_def E all_defs n) deps instance
                  (s\<lparr>draws := k\<rparr>) of
             OutOfFuel \<Rightarrow> OutOfFuel
           | Throws e s1 \<Rightarrow> Throws e s1
           | Returns instance' s1 \<Rightarrow> create_or_cached E all_defs d instance' s1))"

section \<open>delete_dependent_resources\<close>

text \<open>\<open>String.prototype.indexOf\<close>: the first position at which \<open>pat\<close> occurs, or \<open>-1\<close>.\<close>

fun string_index_of :: "string \<Rightarrow> string \<Rightarrow> nat \<Rightarrow> int" where
  "string_index_of [] pat i = (if pat = [] then int i else - 1)"
| "string_index_of (c # cs) pat i =
     (if prefix pat (c # cs) then int i else string_index_of cs pat (Suc i))"

text \<open>
  The test \<open>!current_field.dont_delete && (!def.parent ||
  def.parent.name.indexOf(current_field.from) < 0)\<close>, with its short-circuit order.
\<close>

definition should_delete :: "resource_def list \<Rightarrow> ref \<Rightarrow> field_def \<Rightarrow> string \<Rightarrow> error + bool" where
  "should_delete all_defs d current_field fr =
     (if f_dont_delete current_field then Inr False
      else
        (case parent d of
           None \<Rightarrow> Inr True
         | Some p \<Rightarrow>
             (case deref all_defs p of
                None \<Rightarrow> Inl TypeError
              | Some pd \<Rightarrow> Inr (string_index_of (def_name pd) fr 0 < 0))))"

text \<open>
  The branch that deletes \<open>temp_def\<close>'s instance; \<open>cleanup\<close> is the recursive call, one
  level down. \<open>temp_def.last\<close> is read again after the \<open>await\<close>s.
\<close>

definition delete_instance ::
  "env \<Rightarrow> resource_def list \<Rightarrow> (ref \<Rightarrow> tester \<Rightarrow> unit outcome) \<Rightarrow> ref \<Rightarrow> tester
     \<Rightarrow> unit outcome" where
  "delete_instance E all_defs cleanup temp_def s =
     (case cleanup temp_def s of
        OutOfFuel \<Rightarrow> OutOfFuel
      | Throws e s1 \<Rightarrow> Throws e s1
      | Returns u s1 \<Rightarrow>
          (case get_api_for_def E all_defs s1 temp_def of
             Inl e \<Rightarrow> Throws e s1
           | Inr api \<Rightarrow>
               (case lasts s1 temp_def of
                  None \<Rightarrow> Throws TypeError s1
                | Some l1 \<Rightarrow>
                    if \<not> has_member E api ''delete_by_id'' then Throws TypeError s1
                    else
                      (let s2 = s1\<lparr>trace := trace s1 @ [DeleteById api (last_id l1)]\<rparr>
                       in case remote E (trace s1) (DeleteById api (last_id l1)) of
                            Rejected x \<Rightarrow> Throws (Rejection x) s2
                          | Resolved None \<Rightarrow> Throws TypeError s2
                          | Resolved (Some r) \<Rightarrow>
                              (case response r of
                                 None \<Rightarrow> Throws TypeError s2
                               | Some resp \<Rightarrow>
                                   (let s3 =
                                      (if statusCode resp \<noteq> 204
                                       then s2\<lparr>cleanups := cleanups s2 @ [(temp_def, last_id l1)]\<rparr>
                                       else s2)
                                    in Returns () (s3\<lparr>lasts := (lasts s3)(temp_def := None)\<rparr>)))))))"

text \<open>The body of the \<open>for\<close> loop over the keys of \<open>def.fields\<close>.\<close>

definition delete_field ::
  "env \<Rightarrow> resource_def list \<Rightarrow> (ref \<Rightarrow> tester \<Rightarrow> unit outcome) \<Rightarrow> ref \<Rightarrow> field_def
     \<Rightarrow> tester \<Rightarrow> unit outcome" where
  "delete_field E all_defs cleanup d current_field s =
     (case f_from current_field of
        None \<Rightarrow> Returns () s
      | Some fr \<Rightarrow>
          if fr = [] \<or> fr = parent_ref then Returns () s
          else
            (case find_resource_def all_defs fr of
               None \<Rightarrow> Throws (Error (''No resource_def for '' @ fr @ ''.'')) s
             | Some temp_def \<Rightarrow>
                 (case lasts s temp_def of
                    None \<Rightarrow> Returns () s
                  | Some l \<Rightarrow>
                      (case should_delete all_defs d current_field fr of
                         Inl e \<Rightarrow> Throws e s
                       | Inr True \<Rightarrow> delete_instance E all_defs cleanup temp_def s
                       | Inr False \<Rightarrow>
                           Returns () (s\<lparr>cleanups := cleanups s @ [(temp_def, last_id l)]\<rparr>)))))"

fun delete_fields ::
  "env \<Rightarrow> resource_def list \<Rightarrow> (ref \<Rightarrow> tester \<Rightarrow> unit outcome) \<Rightarrow> ref \<Rightarrow> field_def list
     \<Rightarrow> tester \<Rightarrow> unit outcome" where
  "delete_fields E all_defs cleanup d [] s = Returns () s"
| "delete_fields E all_defs cleanup d (f # fs) s =
     (case delete_field E all_defs cleanup d f s of
        OutOfFuel \<Rightarrow> OutOfFuel
      | Throws e s1 \<Rightarrow> Throws e s1
      | Returns u s1 \<Rightarrow> delete_fields E all_defs cleanup d fs s1)"

text \<open>\<open>if (!def || !def.last) return;\<close> and then the loop.\<close>

fun delete_dependent_resources ::
  "env \<Rightarrow> resource_def list \<Rightarrow> nat \<Rightarrow> ref \<Rightarrow> tester \<Rightarrow> unit outcome" where
  "delete_dependent_resources E all_defs 0 d s = OutOfFuel"
| "delete_dependent_resources E all_defs (Suc n) d s =
     (case deref all_defs d of
        None \<Rightarrow> Returns () s
      | Some rd \<Rightarrow>
          (case lasts s d of
             None \<Rightarrow> Returns () s
           | Some l \<Rightarrow>
               delete_fields E all_defs (delete_dependent_resources E all_defs n) d
                 (def_fields rd) s))"

section \<open>cleanup_orphans\<close>





section \<open>A sample configuration\<close>

text \<open>
  A field as the \<open>field_def\<close> constructor leaves it when only \<open>type\<close> and \<open>from\<close> are
  given in the configuration.
\<close>

definition plain_field :: "string \<Rightarrow> string \<Rightarrow> string option \<Rightarrow> field_def" where
  "plain_field n t fr =
     \<lparr>f_name = n, f_type = t, f_max_length = None, f_ignore = False, f_from = fr,
      f_values = None, f_dont_delete = False\<rparr>"

text \<open>A field of the configuration with no option given.\<close>

definition no_options :: field_options where
  "no_options =
     \<lparr>o_type = None, o_max_length = None, o_ignore = None, o_from = None, o_values = None,
      o_dont_delete = None\<rparr>"

text \<open>
  \<open>users\<close> owns \<open>posts\<close>, which owns \<open>comments\<close>, which owns \<open>likes\<close>; \<open>orders\<close> is a second
  top-level resource, which refers to \<open>users\<close>.
\<close>

definition likes :: resource_def where
  "likes = ResourceDef ''likes'' [] []"

definition comments :: resource_def where
  "comments = ResourceDef ''comments'' [plain_field ''author_id'' ''number'' (Some ''users'')] [likes]"

definition posts :: resource_def where
  "posts =
     ResourceDef ''posts''
       [plain_field ''user_id'' ''number'' (Some ''<parent>''),
        plain_field ''owner_id'' ''number'' (Some ''users'')]
       [comments]"

definition users :: resource_def where
  "users =
     ResourceDef ''users''
       [plain_field ''id'' ''sequence'' None,
        plain_field ''born'' ''date'' None,
        plain_field ''seen'' ''timestamp'' None,
        plain_field ''photo'' ''binary'' None]
       [posts]"

definition orders :: resource_def where
  "orders = ResourceDef ''orders'' [plain_field ''user_id'' ''number'' (Some ''users'')] []"

text \<open>
  \<open>invoices\<close> is a third top-level resource; it refers to the nested \<open>posts\<close> by its path, and
  to \<open>users\<close>.
\<close>

definition invoices :: resource_def where
  "invoices =
     ResourceDef ''invoices''
       [plain_field ''post_id'' ''number'' (Some ''users/posts''),
        plain_field ''user_id'' ''number'' (Some ''users'')]
       []"

definition sample_defs :: "resource_def list" where
  "sample_defs = [users, orders, invoices]"

text \<open>
  A remote that accepts every call: a create answers 201 with the object sent plus a fresh
  id (the number of calls made so far, plus one), a delete answers with \<open>delete_status\<close>.
\<close>

definition created :: "int \<Rightarrow> jsobject \<Rightarrow> result" where
  "created i instance =
     \<lparr>response = Some \<lparr>statusCode = 201\<rparr>, resource = Some ((''id'', JNum i) # instance)\<rparr>"

definition sample_remote :: "int \<Rightarrow> event list \<Rightarrow> event \<Rightarrow> reply" where
  "sample_remote delete_status tr ev =
     (case ev of
        Create api instance \<Rightarrow> Resolved (Some (created (int (length tr) + 1) instance))
      | DeleteById api i \<Rightarrow>
          Resolved (Some \<lparr>response = Some \<lparr>statusCode = delete_status\<rparr>, resource = Some []\<rparr>))"

definition sample_env :: "int \<Rightarrow> env" where
  "sample_env delete_status =
     \<lparr>singular = (\<lambda>n. if n \<noteq> [] \<and> last n = CHR ''s'' then butlast n else n),
      random_floor = (\<lambda>k n. 0),
      random_bytes = (\<lambda>k i. 0),
      moment_format = (\<lambda>k. ''2015-06-01T12:00:00+00:00''),
      uuid_v4 = (\<lambda>k. ''110ec58a-a0f2-4ac4-8393-c866d813b8d1''),
      has_member = (\<lambda>api m. True),
      remote = sample_remote delete_status\<rparr>"

definition fresh :: tester where
  "fresh = \<lparr>lasts = Map.empty, cleanups = [], trace = [], draws = 0\<rparr>"

definition live :: "int \<Rightarrow> last_instance" where
  "live i = \<lparr>last_id = JNum i, last_obj = created i []\<rparr>"

text \<open>\<open>users\<close>, \<open>posts\<close> and \<open>comments\<close> each have a live instance, with ids 1, 2 and 3.\<close>

definition nested_live :: tester where
  "nested_live =
     fresh\<lparr>lasts := [[0] \<mapsto> live 1, [0, 0] \<mapsto> live 2, [0, 0, 0] \<mapsto> live 3]\<rparr>"







text \<open>\<open>orders\<close> has a live instance, \<open>users\<close> has none.\<close>

definition orders_live :: tester where
  "orders_live = fresh\<lparr>lasts := [[1] \<mapsto> live 2]\<rparr>"

text \<open>The candidate made for \<open>users\<close>, and the state after \<open>orders\<close> was created from scratch.\<close>

definition users_candidate :: jsobject where
  "users_candidate = [(''born'', JStr ''2015-06-01T12:00:00+00:00'')]"

definition after_orders :: tester where
  "after_orders =
     \<lparr>lasts = [[0] \<mapsto> \<lparr>last_id = JNum 1, last_obj = created 1 users_candidate\<rparr>,
               [1] \<mapsto> \<lparr>last_id = JNum 2, last_obj = created 2 [(''user_id'', JNum 1)]\<rparr>],
      cleanups = [],
      trace = [Create [(''users'', [])] users_candidate,
               Create [(''orders'', [])] [(''user_id'', JNum 1)]],
      draws = 1\<rparr>"

text \<open>A remote that refuses every create with an error message in the body.\<close>

definition refusal :: result where
  "refusal =
     \<lparr>response = Some \<lparr>statusCode = 422\<rparr>,
      resource = Some [(''message'', JStr ''born is not a date'')]\<rparr>"

definition refusing_env :: env where
  "refusing_env = (sample_env 204)\<lparr>remote := (\<lambda>tr ev. Resolved (Some refusal))\<rparr>"

definition refused :: tester where
  "refused =
     \<lparr>lasts = [[0] \<mapsto> \<lparr>last_id = JUndefined, last_obj = refusal\<rparr>],
      cleanups = [],
      trace = [Create [(''users'', [])] users_candidate],
      draws = 1\<rparr>"

section \<open>Notions used in the statements\<close>

text \<open>The test \<open>if (f.from)\<close>.\<close>

definition has_from :: "field_def \<Rightarrow> bool" where
  "has_from f = (case f_from f of None \<Rightarrow> False | Some fr \<Rightarrow> fr \<noteq> [])"

text \<open>The test \<open>f.values && f.values.length > 0\<close>.\<close>

definition has_values :: "field_def \<Rightarrow> bool" where
  "has_values f = (case f_values f of None \<Rightarrow> False | Some vs \<Rightarrow> vs \<noteq> [])"

text \<open>
  No \<open>last\<close> has been cleared or replaced between two states: every instance that is live
  in \<open>s\<close> is still the live instance in \<open>t\<close>.
\<close>

definition lasts_kept :: "tester \<Rightarrow> tester \<Rightarrow> bool" where
  "lasts_kept s t = (\<forall>d l. lasts s d = Some l \<longrightarrow> lasts t d = Some l)"







section \<open>Path lookup\<close>

text \<open>
  C4 (code differs). The claim: \<open>find_resource_def\<close> reports not-found whenever a segment of
  the path matches no candidate sibling, and never returns the definition of a partial
  prefix. The code: a segment without a match is skipped and the search goes on from where
  it was, so \<open>users/nothing\<close> yields \<open>users\<close> and \<open>nothing/orders\<close> yields \<open>orders\<close>; only a
  path none of whose segments matches yields \<open>null\<close>.
\<close>

theorem find_resource_def_skips_unmatched_segment:
  "find_resource_def sample_defs ''users/posts'' = Some [0, 0]
   \<and> find_resource_def sample_defs ''users/nothing'' = Some [0]
   \<and> find_resource_def sample_defs ''nothing/orders'' = Some [1]
   \<and> find_resource_def sample_defs ''nothing'' = None"
  by (simp add: find_resource_def_def sample_defs_def users_def posts_def comments_def
        orders_def invoices_def)

section \<open>Client binding\<close>

text \<open>
  C5 (code differs). The claim: every intermediate owner in the chain is entered through its
  singular member with that owner's own last id. The code: the singular member is used at
  the steps where an even number of names remains, always with \<open>def.parent.last.id\<close>. For
  \<open>likes\<close> (chain \<open>users, posts, comments, likes\<close>, ids 1, 2, 3) the owner \<open>users\<close> is scoped
  by 3 and \<open>posts\<close> is entered as a collection; for \<open>comments\<close> the owner \<open>users\<close> is
  entered as a collection.
\<close>

theorem get_api_for_def_scopes_by_parent_id_only:
  "get_api_for_def (sample_env 204) sample_defs nested_live [0, 0, 0, 0]
     = Inr [(''user'', [JNum 3]), (''posts'', []), (''comment'', [JNum 3]), (''likes'', [])]
   \<and> get_api_for_def (sample_env 204) sample_defs nested_live [0, 0, 0]
     = Inr [(''users'', []), (''post'', [JNum 2]), (''comments'', [])]"
  by (simp add: get_api_for_def_def resource_names.simps parent_def sample_defs_def users_def
        posts_def comments_def likes_def sample_env_def nested_live_def fresh_def live_def)

section \<open>Test object factory\<close>

text \<open>
  What one field can do to the candidate: it draws, it assigns at most its own key, and it
  adds at most one dependency, under its own name.
\<close>

lemma make_by_type_shape:
  assumes "make_by_type E f (ob, deps, k) = Inr (ob', deps', k')"
  shows "deps' = deps \<and> k \<le> k' \<and> (ob' = ob \<or> (\<exists>v. ob' = AList.update (f_name f) v ob))"
  using assms unfolding make_by_type_def Let_def
  by (simp split: if_splits sum.splits) blast+

lemma make_value_shape:
  assumes "make_value E f (ob, deps, k) = Inr (ob', deps', k')"
  shows "deps' = deps \<and> k \<le> k' \<and> (ob' = ob \<or> (\<exists>v. ob' = AList.update (f_name f) v ob))"
proof (cases "f_values f")
  case None
  with assms show ?thesis by (simp add: make_value_def make_by_type_shape)
next
  case (Some vs)
  show ?thesis
  proof (cases vs)
    case Nil
    with Some assms show ?thesis by (simp add: make_value_def make_by_type_shape)
  next
    case (Cons v vs')
    with Some assms show ?thesis by (auto simp: make_value_def Let_def)
  qed
qed

lemma make_field_shape:
  assumes "make_field E all_defs s d f (ob, deps, k) = Inr (ob', deps', k')"
  shows "k \<le> k' \<and> (ob' = ob \<or> (\<exists>v. ob' = AList.update (f_name f) v ob))
         \<and> (deps' = deps
            \<or> (has_from f \<and> (\<exists>fr. deps' = deps @ [\<lparr>dep_field = f_name f, dep_from = fr\<rparr>])))"
proof (cases "has_from f")
  case False
  then have "make_field E all_defs s d f (ob, deps, k) = make_value E f (ob, deps, k)"
    by (simp add: make_field_def has_from_def split: option.splits)
  with assms make_value_shape[of E f ob deps k ob' deps' k'] show ?thesis by simp
next
  case True
  then obtain fr where "f_from f = Some fr" "fr \<noteq> []"
    by (auto simp: has_from_def split: option.splits)
  with assms True show ?thesis
    by (auto simp: make_field_def split: if_splits option.splits)
qed

lemma make_field_other_key:
  assumes "make_field E all_defs s d f (ob, deps, k) = Inr (ob', deps', k')" and "f_name f \<noteq> n"
  shows "map_of ob' n = map_of ob n"
  using make_field_shape[OF assms(1)] assms(2) by (auto simp: update_conv')

lemma make_field_draws:
  assumes "make_field E all_defs s d f (ob, deps, k) = Inr (ob', deps', k')"
  shows "k \<le> k'"
  using make_field_shape[OF assms] by simp

lemma make_fields_draws:
  "make_fields E all_defs s d fs (ob, deps, k) = Inr (ob', deps', k') \<Longrightarrow> k \<le> k'"
proof (induction fs arbitrary: ob deps k)
  case Nil
  then show ?case by simp
next
  case (Cons f fs)
  from Cons.prems obtain ob1 deps1 k1 where
    step: "make_field E all_defs s d f (ob, deps, k) = Inr (ob1, deps1, k1)"
    and rest: "make_fields E all_defs s d fs (ob1, deps1, k1) = Inr (ob', deps', k')"
    by (auto split: sum.splits)
  from make_field_draws[OF step] Cons.IH[OF rest] show ?case by simp
qed

lemma make_fields_other_key:
  "make_fields E all_defs s d fs (ob, deps, k) = Inr (ob', deps', k') \<Longrightarrow>
   n \<notin> f_name ` set fs \<Longrightarrow> map_of ob' n = map_of ob n"
proof (induction fs arbitrary: ob deps k)
  case Nil
  then show ?case by simp
next
  case (Cons f fs)
  from Cons.prems(1) obtain ob1 deps1 k1 where
    step: "make_field E all_defs s d f (ob, deps, k) = Inr (ob1, deps1, k1)"
    and rest: "make_fields E all_defs s d fs (ob1, deps1, k1) = Inr (ob', deps', k')"
    by (auto split: sum.splits)
  from Cons.prems(2) have "f_name f \<noteq> n" "n \<notin> f_name ` set fs" by auto
  with make_field_other_key[OF step] Cons.IH[OF rest] show ?case by simp
qed

text \<open>A field that is neither a reference nor enumerated, of a type the switch skips.\<close>

lemma make_field_skipped:
  assumes "\<not> has_from f" "\<not> has_values f" "f_type f = ''sequence'' \<or> f_type f = ''binary''"
  shows "make_field E all_defs s d f acc = Inr acc"
proof -
  from assms(1) have "make_field E all_defs s d f acc = make_value E f acc"
    by (cases acc) (simp add: make_field_def has_from_def split: option.splits)
  also from assms(2) have "\<dots> = make_by_type E f acc"
    by (cases acc) (simp add: make_value_def has_values_def split: option.splits list.splits)
  also from assms(3) have "\<dots> = Inr acc"
    by (cases acc) (auto simp: make_by_type_def)
  finally show ?thesis .
qed

lemma make_field_date:
  assumes "\<not> has_from f" "\<not> has_values f" "f_type f = ''date''"
  shows "make_field E all_defs s d f (ob, deps, k)
           = Inr (AList.update (f_name f) (JStr (moment_format E k)) ob, deps, Suc k)"
proof -
  from assms(1) have "make_field E all_defs s d f (ob, deps, k) = make_value E f (ob, deps, k)"
    by (simp add: make_field_def has_from_def split: option.splits)
  also from assms(2) have "\<dots> = make_by_type E f (ob, deps, k)"
    by (simp add: make_value_def has_values_def split: option.splits list.splits)
  also from assms(3)
  have "\<dots> = Inr (AList.update (f_name f) (JStr (moment_format E k)) ob, deps, Suc k)"
    by (simp add: make_by_type_def)
  finally show ?thesis .
qed

lemma make_fields_skipped:
  "make_fields E all_defs s d fs (ob, deps, k) = Inr (ob', deps', k') \<Longrightarrow>
   distinct (map f_name fs) \<Longrightarrow> f \<in> set fs \<Longrightarrow>
   \<not> has_from f \<Longrightarrow> \<not> has_values f \<Longrightarrow> f_type f = ''sequence'' \<or> f_type f = ''binary'' \<Longrightarrow>
   map_of ob' (f_name f) = map_of ob (f_name f)"
proof (induction fs arbitrary: ob deps k)
  case Nil
  then show ?case by simp
next
  case (Cons g fs)
  from Cons.prems(1) obtain ob1 deps1 k1 where
    step: "make_field E all_defs s d g (ob, deps, k) = Inr (ob1, deps1, k1)"
    and rest: "make_fields E all_defs s d fs (ob1, deps1, k1) = Inr (ob', deps', k')"
    by (auto split: sum.splits)
  show ?case
  proof (cases "g = f")
    case True
    with step Cons.prems have "ob1 = ob" by (simp add: make_field_skipped)
    moreover from True Cons.prems(2) have "f_name f \<notin> f_name ` set fs" by auto
    ultimately show ?thesis using make_fields_other_key[OF rest] by simp
  next
    case False
    with Cons.prems(2,3) have "f \<in> set fs" "f_name g \<noteq> f_name f" by auto
    with Cons.IH[OF rest] Cons.prems make_field_other_key[OF step] show ?thesis by simp
  qed
qed

lemma make_fields_date:
  "make_fields E all_defs s d fs (ob, deps, k) = Inr (ob', deps', k') \<Longrightarrow>
   distinct (map f_name fs) \<Longrightarrow> f \<in> set fs \<Longrightarrow>
   \<not> has_from f \<Longrightarrow> \<not> has_values f \<Longrightarrow> f_type f = ''date'' \<Longrightarrow>
   \<exists>j. k \<le> j \<and> j < k' \<and> map_of ob' (f_name f) = Some (JStr (moment_format E j))"
proof (induction fs arbitrary: ob deps k)
  case Nil
  then show ?case by simp
next
  case (Cons g fs)
  from Cons.prems(1) obtain ob1 deps1 k1 where
    step: "make_field E all_defs s d g (ob, deps, k) = Inr (ob1, deps1, k1)"
    and rest: "make_fields E all_defs s d fs (ob1, deps1, k1) = Inr (ob', deps', k')"
    by (auto split: sum.splits)
  show ?case
  proof (cases "g = f")
    case True
    with step Cons.prems have eq: "ob1 = AList.update (f_name f) (JStr (moment_format E k)) ob" "k1 = Suc k"
      by (simp_all add: make_field_date)
    from True Cons.prems(2) have "f_name f \<notin> f_name ` set fs" by auto
    from make_fields_other_key[OF rest this] eq
    have "map_of ob' (f_name f) = Some (JStr (moment_format E k))" by (simp add: update_conv')
    moreover from make_fields_draws[OF rest] eq have "k < k'" by simp
    ultimately show ?thesis by auto
  next
    case False
    with Cons.prems(2,3) have "f \<in> set fs" "distinct (map f_name fs)" by auto
    from Cons.IH[OF rest this(2) this(1) Cons.prems(4,5,6)] obtain j where
      "k1 \<le> j" "j < k'" "map_of ob' (f_name f) = Some (JStr (moment_format E j))" by auto
    with make_field_draws[OF step] show ?thesis by (intro exI[of _ j]) simp
  qed
qed

lemma make_field_deps_fields:
  assumes "make_field E all_defs s d g (ob, deps, k) = Inr (ob1, deps1, k1)" and "x \<in> set deps1"
  shows "x \<in> set deps \<or> (has_from g \<and> f_name g = dep_field x)"
  using make_field_shape[OF assms(1)] assms(2) by auto

lemma make_fields_deps_fields:
  "make_fields E all_defs s d fs (ob, deps, k) = Inr (ob', deps', k') \<Longrightarrow> x \<in> set deps' \<Longrightarrow>
   x \<in> set deps \<or> (\<exists>g \<in> set fs. has_from g \<and> f_name g = dep_field x)"
proof (induction fs arbitrary: ob deps k)
  case Nil
  then show ?case by simp
next
  case (Cons g fs)
  from Cons.prems(1) obtain ob1 deps1 k1 where
    step: "make_field E all_defs s d g (ob, deps, k) = Inr (ob1, deps1, k1)"
    and rest: "make_fields E all_defs s d fs (ob1, deps1, k1) = Inr (ob', deps', k')"
    by (auto split: sum.splits)
  from Cons.IH[OF rest Cons.prems(2)] make_field_deps_fields[OF step]
  show ?case by auto
qed

text \<open>The \<open>users\<close> definition of the sample, and the candidate made for it.\<close>

lemma users_is_first: "deref sample_defs [0] = Some users"
  by (simp add: sample_defs_def)

lemma users_fields_distinct: "distinct (map f_name (def_fields users))"
  by (simp add: users_def plain_field_def)

lemma make_users:
  "make_test_object (sample_env 204) sample_defs fresh [0]
     = Inr ([(''born'', JStr ''2015-06-01T12:00:00+00:00'')], [], 1)"
  unfolding make_test_object_def users_is_first
  by (simp add: users_def make_field_def make_value_def make_by_type_def plain_field_def
      sample_env_def fresh_def)

text \<open>
  C10. A field of type \<open>sequence\<close> or \<open>binary\<close> with no \<open>from\<close> and no non-empty \<open>values\<close>
  gets no key in the instance \<open>make_test_object\<close> returns (and no dependency entry), although
  the constructor of \<open>field_def\<close> accepts both types. The keys of \<open>def.fields\<close> are the field
  names, so no two fields of a definition share a name.
\<close>

theorem sequence_and_binary_fields_left_absent:
  assumes "deref all_defs d = Some rd"
    and "f \<in> set (def_fields rd)"
    and "distinct (map f_name (def_fields rd))"
    and "f_type f = ''sequence'' \<or> f_type f = ''binary''"
    and "\<not> has_from f" and "\<not> has_values f"
    and "make_test_object E all_defs s d = Inr (instance, deps, k)"
  shows "map_of instance (f_name f) = None
         \<and> f_name f \<notin> dep_field ` set deps
         \<and> (\<exists>g. new_field_def (f_name f) (options\<lparr>o_type := Some (f_type f)\<rparr>) = Inr g)"
proof -
  from assms(1,7) have run:
    "make_fields E all_defs s d (def_fields rd) ([], [], draws s) = Inr (instance, deps, k)"
    by (simp add: make_test_object_def)
  from make_fields_skipped[OF run assms(3,2,5,6,4)]
  have "map_of instance (f_name f) = None" by simp
  moreover have "f_name f \<notin> dep_field ` set deps"
  proof
    assume "f_name f \<in> dep_field ` set deps"
    then obtain x where "x \<in> set deps" "dep_field x = f_name f" by auto
    with make_fields_deps_fields[OF run] obtain g where
      g: "g \<in> set (def_fields rd)" "has_from g" "f_name g = f_name f" by fastforce
    with assms(2,3) have "g = f" by (auto simp: distinct_map inj_on_def)
    with g assms(5) show False by simp
  qed
  moreover from assms(4)
  have "\<exists>g. new_field_def (f_name f) (options\<lparr>o_type := Some (f_type f)\<rparr>) = Inr g"
    by (auto simp: new_field_def_def valid_types_def)
  ultimately show ?thesis by simp
qed

text \<open>Witness: the \<open>binary\<close> field \<open>photo\<close> of \<open>users\<close>.\<close>

theorem sequence_and_binary_fields_left_absent_witness:
  "map_of [(''born'', JStr ''2015-06-01T12:00:00+00:00'')] ''photo'' = None
   \<and> ''photo'' \<notin> dep_field ` set []
   \<and> (\<exists>g. new_field_def ''photo'' (no_options\<lparr>o_type := Some ''binary''\<rparr>) = Inr g)"
  using sequence_and_binary_fields_left_absent
          [OF users_is_first _ users_fields_distinct _ _ _ make_users,
           of "plain_field ''photo'' ''binary'' None" no_options]
  by (simp add: users_def has_from_def has_values_def plain_field_def)

text \<open>
  C9 (amended). The claim, for \<open>date\<close> and \<open>timestamp\<close> alike, fails for \<open>timestamp\<close>: the
  switch has no case for it, and the \<open>timestamp\<close> field \<open>seen\<close> of \<open>users\<close> gets no key.
\<close>

theorem timestamp_field_left_absent:
  "deref sample_defs [0] = Some users
   \<and> plain_field ''seen'' ''timestamp'' None \<in> set (def_fields users)
   \<and> \<not> has_from (plain_field ''seen'' ''timestamp'' None)
   \<and> \<not> has_values (plain_field ''seen'' ''timestamp'' None)
   \<and> make_test_object (sample_env 204) sample_defs fresh [0]
       = Inr ([(''born'', JStr ''2015-06-01T12:00:00+00:00'')], [], 1)"
  unfolding users_is_first make_users
  by (simp add: users_def has_from_def has_values_def plain_field_def)

text \<open>
  C9 as amended: a field of type \<open>date\<close> with no \<open>from\<close> and no non-empty \<open>values\<close> is
  assigned \<open>moment().format()\<close>, the current time read at one of the draws of this call.
\<close>

theorem date_fields_get_the_current_time:
  assumes "deref all_defs d = Some rd"
    and "f \<in> set (def_fields rd)"
    and "distinct (map f_name (def_fields rd))"
    and "f_type f = ''date''"
    and "\<not> has_from f" and "\<not> has_values f"
    and "make_test_object E all_defs s d = Inr (instance, deps, k)"
  shows "\<exists>j. draws s \<le> j \<and> j < k \<and> map_of instance (f_name f) = Some (JStr (moment_format E j))"
proof -
  from assms(1,7) have run:
    "make_fields E all_defs s d (def_fields rd) ([], [], draws s) = Inr (instance, deps, k)"
    by (simp add: make_test_object_def)
  from make_fields_date[OF run assms(3,2,5,6,4)] show ?thesis .
qed

text \<open>Witness: the \<open>date\<close> field \<open>born\<close> of \<open>users\<close>.\<close>

theorem date_fields_get_the_current_time_witness:
  "\<exists>j. draws fresh \<le> j \<and> j < 1
       \<and> map_of [(''born'', JStr ''2015-06-01T12:00:00+00:00'')] ''born''
           = Some (JStr (moment_format (sample_env 204) j))"
  using date_fields_get_the_current_time
          [OF users_is_first _ users_fields_distinct _ _ _ make_users,
           of "plain_field ''born'' ''date'' None"]
  by (simp add: users_def has_from_def has_values_def plain_field_def)

section \<open>Cleanup\<close>




















text \<open>The sample, evaluated: lookups, bindings, and the cleanup of \<open>users\<close>.\<close>

lemma sample_env_sel:
  "singular (sample_env st) n = (if n \<noteq> [] \<and> last n = CHR ''s'' then butlast n else n)"
  "random_floor (sample_env st) k bound = 0"
  "random_bytes (sample_env st) k i = 0"
  "moment_format (sample_env st) k = ''2015-06-01T12:00:00+00:00''"
  "uuid_v4 (sample_env st) k = ''110ec58a-a0f2-4ac4-8393-c866d813b8d1''"
  "has_member (sample_env st) api m"
  "remote (sample_env st) tr (Create api instance)
     = Resolved (Some (created (int (length tr) + 1) instance))"
  "remote (sample_env st) tr (DeleteById api j)
     = Resolved (Some \<lparr>response = Some \<lparr>statusCode = st\<rparr>, resource = Some []\<rparr>)"
  by (simp_all add: sample_env_def sample_remote_def)

lemma orders_is_second: "deref sample_defs [1] = Some orders"
  by (simp add: sample_defs_def)

lemma posts_is_nested: "deref sample_defs [0, 0] = Some posts"
  by (simp add: sample_defs_def users_def)

lemma comments_is_nested: "deref sample_defs [0, 0, 0] = Some comments"
  by (simp add: sample_defs_def users_def posts_def)

lemma find_users: "find_resource_def sample_defs ''users'' = Some [0]"
  by (simp add: find_resource_def_def sample_defs_def users_def)

lemma bind_users: "get_api_for_def (sample_env st) sample_defs s [0] = Inr [(''users'', [])]"
  unfolding get_api_for_def_def resource_names.simps[of _ "[0]"] users_is_first
  by (simp add: parent_def users_def sample_env_sel)

lemma bind_orders: "get_api_for_def (sample_env st) sample_defs s [1] = Inr [(''orders'', [])]"
  unfolding get_api_for_def_def resource_names.simps[of _ "[1]"] orders_is_second
  by (simp add: parent_def orders_def sample_env_sel)


lemma nested_live_lasts:
  "lasts nested_live [0] = Some (live 1)"
  "lasts nested_live [0, 0] = Some (live 2)"
  "lasts nested_live [0, 0, 0] = Some (live 3)"
  "trace nested_live = []" "cleanups nested_live = []"
  by (simp_all add: nested_live_def fresh_def)

lemma users_cleanup_noop:
  "lasts s [0] = Some l \<Longrightarrow>
   delete_dependent_resources E sample_defs (Suc n) [0] s = Returns () s"
  unfolding delete_dependent_resources.simps users_is_first
  by (simp add: users_def delete_field_def plain_field_def)










text \<open>
  C6 (code differs). The claim: a dependency whose definition is named like any ancestor of
  the deleting definition is queued and its \<open>last\<close> kept. The code looks at the immediate
  parent only, and asks whether the parent's name contains the \<open>from\<close> string of the field:
  \<open>comments\<close> refers to \<open>users\<close>, its grandparent, its parent is \<open>posts\<close>, and cleaning up
  after \<open>comments\<close> deletes the instance of \<open>users\<close> remotely and clears its \<open>last\<close>, with
  nothing queued.
\<close>

theorem ancestor_dependency_is_deleted:
  "find_resource_def sample_defs ''users'' = Some [0]
   \<and> parent [0, 0, 0] = Some [0, 0] \<and> parent [0, 0] = Some [0]
   \<and> lasts nested_live [0] = Some (live 1)
   \<and> delete_dependent_resources (sample_env 204) sample_defs 2 [0, 0, 0] nested_live
       = Returns () (nested_live\<lparr>trace := [DeleteById [(''users'', [])] (JNum 1)],
                                lasts := (lasts nested_live)([0] := None)\<rparr>)"
proof -
  let ?E = "sample_env 204"
  have two: "(2::nat) = Suc (Suc 0)" by simp
  have no: "should_delete sample_defs [0, 0, 0]
              (plain_field ''author_id'' ''number'' (Some ''users'')) ''users'' = Inr True"
    unfolding should_delete_def parent_def
    by (simp add: posts_is_nested posts_def plain_field_def del: deref.simps)
  have inner: "delete_dependent_resources ?E sample_defs (Suc 0) [0] nested_live
                 = Returns () nested_live"
    using users_cleanup_noop[OF nested_live_lasts(1)] by simp
  have del: "delete_instance ?E sample_defs (delete_dependent_resources ?E sample_defs (Suc 0)) [0]
               nested_live
             = Returns () (nested_live\<lparr>trace := [DeleteById [(''users'', [])] (JNum 1)],
                                lasts := (lasts nested_live)([0] := None)\<rparr>)"
    unfolding delete_instance_def inner
    by (simp add: bind_users nested_live_lasts live_def sample_env_sel)
  have field: "delete_field ?E sample_defs (delete_dependent_resources ?E sample_defs (Suc 0))
                 [0, 0, 0] (plain_field ''author_id'' ''number'' (Some ''users'')) nested_live
               = Returns () (nested_live\<lparr>trace := [DeleteById [(''users'', [])] (JNum 1)],
                                lasts := (lasts nested_live)([0] := None)\<rparr>)"
    unfolding delete_field_def
    by (simp add: plain_field_def[of "''author_id''"] find_users nested_live_lasts parent_ref_def
          no[unfolded plain_field_def] del[unfolded plain_field_def])
  have "delete_dependent_resources ?E sample_defs 2 [0, 0, 0] nested_live
       = Returns () (nested_live\<lparr>trace := [DeleteById [(''users'', [])] (JNum 1)],
                                lasts := (lasts nested_live)([0] := None)\<rparr>)"
    unfolding two
    by (simp add: comments_is_nested nested_live_lasts comments_def field del: deref.simps)
  then show ?thesis
    by (simp add: find_users parent_def nested_live_lasts)
qed







section \<open>Dependency resolver\<close>

text \<open>Creation never clears or replaces a \<open>last\<close> that is set.\<close>

lemma lasts_kept_refl: "lasts_kept s s"
  by (simp add: lasts_kept_def)

lemma lasts_kept_trans: "lasts_kept s t \<Longrightarrow> lasts_kept t u \<Longrightarrow> lasts_kept s u"
  by (simp add: lasts_kept_def)

lemma resolve_deps_keeps:
  assumes keeps: "\<And>d s res s'. create d s = Returns res s' \<Longrightarrow> lasts_kept s s'"
  shows "resolve_deps all_defs create deps inst s = Returns inst' s' \<Longrightarrow> lasts_kept s s'"
proof (induction deps arbitrary: inst s)
  case Nil
  then show ?case by (simp add: lasts_kept_refl)
next
  case (Cons x xs)
  from Cons.prems obtain dep_def r body s1 where
    step: "create dep_def s = Returns (Some r) s1"
    and rest: "resolve_deps all_defs create xs
                 (AList.update (dep_field x) (get_prop body ''id'') inst) s1
               = Returns inst' s'"
    by (auto split: option.splits outcome.splits)
  from keeps[OF step] Cons.IH[OF rest] show ?case by (rule lasts_kept_trans)
qed

lemma create_or_cached_keeps:
  assumes "create_or_cached E all_defs d inst s = Returns res s'"
  shows "lasts_kept s s'"
  using assms
  by (auto simp: create_or_cached_def lasts_kept_def Let_def
      split: option.splits sum.splits if_splits reply.splits)

lemma create_or_cached_result:
  assumes "create_or_cached E all_defs d inst s = Returns (Some r) s'"
  shows "\<exists>l. lasts s' d = Some l \<and> last_obj l = r"
  using assms
  by (auto simp: create_or_cached_def Let_def
      split: option.splits sum.splits if_splits reply.splits)

lemma create_resource_from_def_keeps:
  "create_resource_from_def E all_defs n d s = Returns res s' \<Longrightarrow> lasts_kept s s'"
proof (induction n arbitrary: d s res s')
  case 0
  then show ?case by simp
next
  case (Suc n)
  from Suc.prems obtain inst deps k inst' s1 where
    made: "make_test_object E all_defs s d = Inr (inst, deps, k)"
    and resolved: "resolve_deps all_defs (create_resource_from_def E all_defs n) deps inst
                     (s\<lparr>draws := k\<rparr>) = Returns inst' s1"
    and tail: "create_or_cached E all_defs d inst' s1 = Returns res s'"
    by (auto split: sum.splits outcome.splits)
  have "lasts_kept s (s\<lparr>draws := k\<rparr>)" by (simp add: lasts_kept_def)
  moreover from resolved have "lasts_kept (s\<lparr>draws := k\<rparr>) s1"
    by (rule resolve_deps_keeps[rotated]) (rule Suc.IH)
  moreover note create_or_cached_keeps[OF tail]
  ultimately show ?case by (blast intro: lasts_kept_trans)
qed

text \<open>
  The factory in a later state: \<open>random_string\<close> with the default alphabet never throws, so
  a field that is not a reference always gets through; a candidate that could be made in \<open>s\<close>
  can be made in any later state, and asks for no dependency it did not ask for in \<open>s\<close>.
\<close>

lemma random_string_default:
  "random_string E k len None = Inr (random_loop (random_bytes E k) default_chars 0 len 0)"
  by (simp add: random_string_def) (simp add: default_chars_def)

lemma make_by_type_total: "\<exists>ob' k'. make_by_type E f (ob, deps, k) = Inr (ob', deps, k')"
  by (simp add: make_by_type_def random_string_default)

lemma make_value_total: "\<exists>ob' k'. make_value E f (ob, deps, k) = Inr (ob', deps, k')"
proof (cases "f_values f")
  case None
  then show ?thesis using make_by_type_total[of E f ob deps k] by (simp add: make_value_def)
next
  case (Some vs)
  then show ?thesis using make_by_type_total[of E f ob deps k]
    by (cases vs) (simp_all add: make_value_def Let_def)
qed

lemma make_field_later:
  assumes "make_field E all_defs s d f (ob, deps, k) = Inr (ob', deps', k')"
    and "lasts_kept s t" and "subseq deps2 deps"
  shows "\<exists>ob2' deps2' k2'. make_field E all_defs t d f (ob2, deps2, k2) = Inr (ob2', deps2', k2')
                          \<and> subseq deps2' deps'"
proof (cases "has_from f")
  case False
  then have eq: "\<And>u acc. make_field E all_defs u d f acc = make_value E f acc"
    by (auto simp: make_field_def has_from_def split: option.splits prod.splits)
  from assms(1) make_value_total[of E f ob deps k] have "deps' = deps" by (simp add: eq)
  with make_value_total[of E f ob2 deps2 k2] assms(3) show ?thesis by (auto simp: eq)
next
  case True
  then obtain fr where fr: "f_from f = Some fr" "fr \<noteq> []"
    by (auto simp: has_from_def split: option.splits)
  show ?thesis
  proof (cases "fr = parent_ref")
    case False
    with fr assms(1) have "deps' = deps @ [\<lparr>dep_field = f_name f, dep_from = fr\<rparr>]"
      by (simp add: make_field_def)
    moreover from fr False
    have "make_field E all_defs t d f (ob2, deps2, k2)
            = Inr (ob2, deps2 @ [\<lparr>dep_field = f_name f, dep_from = fr\<rparr>], k2)"
      by (simp add: make_field_def)
    ultimately show ?thesis using assms(3) by (simp add: list_emb_append_mono)
  next
    case True
    with fr assms(1) obtain p where p: "parent d = Some p"
      by (auto simp: make_field_def split: option.splits)
    show ?thesis
    proof (cases "lasts t p")
      case (Some lt)
      with fr True p
      have "make_field E all_defs t d f (ob2, deps2, k2)
              = Inr (AList.update (f_name f) (last_id lt) ob2, deps2, k2)"
        by (simp add: make_field_def)
      moreover from assms(1) have "\<exists>zs. deps' = deps @ zs"
        using fr True p by (auto simp: make_field_def split: option.splits)
      ultimately show ?thesis using assms(3) list_emb_append_mono[of "(=)" deps2 deps "[]"]
        by auto
    next
      case None
      with assms(2) have "lasts s p = None" by (cases "lasts s p") (auto simp: lasts_kept_def)
      with fr True p assms(1) obtain pd where
        pd: "deref all_defs p = Some pd"
            "deps' = deps @ [\<lparr>dep_field = f_name f, dep_from = def_name pd\<rparr>]"
        by (auto simp: make_field_def split: option.splits)
      with fr True p None
      have "make_field E all_defs t d f (ob2, deps2, k2)
              = Inr (ob2, deps2 @ [\<lparr>dep_field = f_name f, dep_from = def_name pd\<rparr>], k2)"
        by (simp add: make_field_def)
      with pd assms(3) show ?thesis by (simp add: list_emb_append_mono)
    qed
  qed
qed

lemma make_fields_later:
  "make_fields E all_defs s d fs (ob, deps, k) = Inr (ob', deps', k') \<Longrightarrow>
   lasts_kept s t \<Longrightarrow> subseq deps2 deps \<Longrightarrow>
   \<exists>ob2' deps2' k2'. make_fields E all_defs t d fs (ob2, deps2, k2) = Inr (ob2', deps2', k2')
                     \<and> subseq deps2' deps'"
proof (induction fs arbitrary: ob deps k ob2 deps2 k2)
  case Nil
  then show ?case by simp
next
  case (Cons f fs)
  from Cons.prems(1) obtain ob1 deps1 k1 where
    step: "make_field E all_defs s d f (ob, deps, k) = Inr (ob1, deps1, k1)"
    and rest: "make_fields E all_defs s d fs (ob1, deps1, k1) = Inr (ob', deps', k')"
    by (auto split: sum.splits)
  from make_field_later[OF step Cons.prems(2,3), of ob2 k2] obtain ob3 deps3 k3 where
    step2: "make_field E all_defs t d f (ob2, deps2, k2) = Inr (ob3, deps3, k3)"
    and sub: "subseq deps3 deps1"
    by blast
  from Cons.IH[OF rest Cons.prems(2) sub, of ob3 k3] step2 show ?case by simp
qed

lemma make_test_object_later:
  assumes "make_test_object E all_defs s d = Inr (inst, deps, k)" and "lasts_kept s t"
  shows "\<exists>inst2 deps2 k2. make_test_object E all_defs t d = Inr (inst2, deps2, k2)
                         \<and> subseq deps2 deps"
proof -
  from assms(1) obtain rd where rd: "deref all_defs d = Some rd"
    and run: "make_fields E all_defs s d (def_fields rd) ([], [], draws s) = Inr (inst, deps, k)"
    by (auto simp: make_test_object_def split: option.splits)
  from make_fields_later[OF run assms(2), of "[]" "[]" "draws t"] rd show ?thesis
    by (simp add: make_test_object_def)
qed

lemma resolve_deps_replay:
  assumes keeps: "\<And>d s res s'. create d s = Returns res s' \<Longrightarrow> lasts_kept s s'"
    and replay: "\<And>d s r s' t. create d s = Returns (Some r) s' \<Longrightarrow> lasts_kept s' t \<Longrightarrow>
                   \<exists>k. create d t = Returns (Some r) (t\<lparr>draws := k\<rparr>)"
  shows "resolve_deps all_defs create deps inst s = Returns inst' s' \<Longrightarrow>
         subseq deps2 deps \<Longrightarrow> lasts_kept s' t \<Longrightarrow>
         \<exists>inst2' k. resolve_deps all_defs create deps2 inst2 t = Returns inst2' (t\<lparr>draws := k\<rparr>)"
proof (induction deps arbitrary: inst s deps2 inst2 t)
  case Nil
  then have "deps2 = []" by simp
  then have "resolve_deps all_defs create deps2 inst2 t = Returns inst2 (t\<lparr>draws := draws t\<rparr>)"
    by simp
  then show ?case by blast
next
  case (Cons x xs)
  from Cons.prems(1) obtain dep_def r body s1 where
    found: "find_resource_def all_defs (dep_from x) = Some dep_def"
    and step: "create dep_def s = Returns (Some r) s1"
    and body: "resource r = Some body"
    and rest: "resolve_deps all_defs create xs
                 (AList.update (dep_field x) (get_prop body ''id'') inst) s1
               = Returns inst' s'"
    by (auto split: option.splits outcome.splits)
  show ?case
  proof (cases deps2)
    case Nil
    then have "resolve_deps all_defs create deps2 inst2 t = Returns inst2 (t\<lparr>draws := draws t\<rparr>)"
      by simp
    then show ?thesis by blast
  next
    case (Cons y ys)
    show ?thesis
    proof (cases "x = y")
      case True
      with Cons Cons.prems(2) have sub: "subseq ys xs" by simp
      have "lasts_kept s1 s'" using rest by (rule resolve_deps_keeps[rotated]) (rule keeps)
      with Cons.prems(3) have "lasts_kept s1 t" by (blast intro: lasts_kept_trans)
      from replay[OF step this] obtain k where
        again: "create dep_def t = Returns (Some r) (t\<lparr>draws := k\<rparr>)" by blast
      have "lasts_kept s' (t\<lparr>draws := k\<rparr>)"
        using Cons.prems(3) by (simp add: lasts_kept_def)
      from Cons.IH[OF rest sub this,
                   of "AList.update (dep_field x) (get_prop body ''id'') inst2"]
      obtain inst2' k' where
        "resolve_deps all_defs create ys
           (AList.update (dep_field x) (get_prop body ''id'') inst2) (t\<lparr>draws := k\<rparr>)
         = Returns inst2' (t\<lparr>draws := k'\<rparr>)"
        by auto
      with Cons True found again body show ?thesis by auto
    next
      case False
      with Cons Cons.prems(2) have "subseq deps2 xs" by simp
      from Cons.IH[OF rest this Cons.prems(3)] show ?thesis .
    qed
  qed
qed

lemma create_resource_from_def_replay:
  "create_resource_from_def E all_defs n d s = Returns (Some r) s' \<Longrightarrow> lasts_kept s' t \<Longrightarrow>
   \<exists>k. create_resource_from_def E all_defs n d t = Returns (Some r) (t\<lparr>draws := k\<rparr>)"
proof (induction n arbitrary: d s r s' t)
  case 0
  then show ?case by simp
next
  case (Suc n)
  let ?create = "create_resource_from_def E all_defs n"
  from Suc.prems(1) obtain inst deps k0 inst' s1 where
    made: "make_test_object E all_defs s d = Inr (inst, deps, k0)"
    and resolved: "resolve_deps all_defs ?create deps inst (s\<lparr>draws := k0\<rparr>) = Returns inst' s1"
    and tail: "create_or_cached E all_defs d inst' s1 = Returns (Some r) s'"
    by (auto split: sum.splits outcome.splits)
  have k1: "lasts_kept (s\<lparr>draws := k0\<rparr>) s1"
    using resolved by (rule resolve_deps_keeps[rotated]) (rule create_resource_from_def_keeps)
  have k2: "lasts_kept s1 s'" by (rule create_or_cached_keeps[OF tail])
  have "lasts_kept s (s\<lparr>draws := k0\<rparr>)" by (simp add: lasts_kept_def)
  with k1 k2 Suc.prems(2) have "lasts_kept s t" by (blast intro: lasts_kept_trans)
  from make_test_object_later[OF made this] obtain inst2 deps2 k2' where
    made2: "make_test_object E all_defs t d = Inr (inst2, deps2, k2')"
    and sub: "subseq deps2 deps" by blast
  have "lasts_kept s1 (t\<lparr>draws := k2'\<rparr>)"
    using k2 Suc.prems(2) by (auto simp: lasts_kept_def)
  moreover have "\<And>d s res s'. ?create d s = Returns res s' \<Longrightarrow> lasts_kept s s'"
    by (rule create_resource_from_def_keeps)
  moreover have "\<And>d s r s' t. ?create d s = Returns (Some r) s' \<Longrightarrow> lasts_kept s' t \<Longrightarrow>
                   \<exists>k. ?create d t = Returns (Some r) (t\<lparr>draws := k\<rparr>)"
    by (rule Suc.IH)
  ultimately have "\<exists>inst2' k. resolve_deps all_defs ?create deps2 inst2 (t\<lparr>draws := k2'\<rparr>)
                  = Returns inst2' (t\<lparr>draws := k2'\<rparr>\<lparr>draws := k\<rparr>)"
    using resolved sub by (intro resolve_deps_replay[where create = ?create and s = "s\<lparr>draws := k0\<rparr>"
          and deps = deps and inst = inst and inst' = inst' and s' = s1])
  then obtain inst2' k where
    resolved2: "resolve_deps all_defs ?create deps2 inst2 (t\<lparr>draws := k2'\<rparr>)
                  = Returns inst2' (t\<lparr>draws := k\<rparr>)"
    by auto
  from create_or_cached_result[OF tail] Suc.prems(2) obtain l where
    "lasts t d = Some l" "last_obj l = r" by (auto simp: lasts_kept_def)
  then have "create_or_cached E all_defs d inst2' (t\<lparr>draws := k\<rparr>)
               = Returns (Some r) (t\<lparr>draws := k\<rparr>)"
    by (simp add: create_or_cached_def)
  with made2 resolved2 show ?case by auto
qed

text \<open>The sample, evaluated: creating \<open>users\<close> and \<open>orders\<close>.\<close>

lemma make_users_any:
  "make_test_object (sample_env st) sample_defs s [0] = Inr (users_candidate, [], Suc (draws s))"
  unfolding make_test_object_def users_is_first
  by (simp add: users_def make_field_def make_value_def make_by_type_def plain_field_def
      sample_env_sel users_candidate_def)

lemma make_orders_any:
  "make_test_object (sample_env st) sample_defs s [Suc 0]
     = Inr ([], [\<lparr>dep_field = ''user_id'', dep_from = ''users''\<rparr>], draws s)"
  unfolding make_test_object_def orders_is_second[unfolded One_nat_def]
  by (simp add: orders_def make_field_def plain_field_def parent_ref_def)

lemma create_users_fresh:
  assumes "lasts s [0] = None"
  shows "create_resource_from_def (sample_env st) sample_defs (Suc n) [0] s
           = Returns (Some (created (int (length (trace s)) + 1) users_candidate))
               (s\<lparr>draws := Suc (draws s),
                  trace := trace s @ [Create [(''users'', [])] users_candidate],
                  lasts := (lasts s)([0] \<mapsto>
                     \<lparr>last_id = JNum (int (length (trace s)) + 1),
                      last_obj = created (int (length (trace s)) + 1) users_candidate\<rparr>)\<rparr>)"
  using assms
  by (simp add: make_users_any create_or_cached_def bind_users sample_env_sel created_def
      get_prop_def)

lemma create_orders_cached:
  assumes "lasts s [Suc 0] = Some l" "lasts s [0] = None"
  shows "create_resource_from_def (sample_env st) sample_defs (Suc (Suc n)) [Suc 0] s
           = Returns (Some (last_obj l))
               (s\<lparr>draws := Suc (draws s),
                  trace := trace s @ [Create [(''users'', [])] users_candidate],
                  lasts := (lasts s)([0] \<mapsto>
                     \<lparr>last_id = JNum (int (length (trace s)) + 1),
                      last_obj = created (int (length (trace s)) + 1) users_candidate\<rparr>)\<rparr>)"
  using assms
  by (simp add: make_orders_any find_users create_users_fresh create_or_cached_def created_def
      get_prop_def del: create_resource_from_def.simps(2)
      add: create_resource_from_def.simps(2)[of _ _ "Suc n"])

lemma create_orders_from_scratch:
  "create_resource_from_def (sample_env 204) sample_defs 2 [1] fresh
     = Returns (Some (created 2 [(''user_id'', JNum 1)])) after_orders"
proof -
  have two: "(2::nat) = Suc (Suc 0)" by simp
  have st: "lasts fresh [0] = None" "trace fresh = []" "draws fresh = 0"
    by (simp_all add: fresh_def)
  show ?thesis
    unfolding two
    by (simp add: make_orders_any find_users create_users_fresh st create_or_cached_def
        bind_orders[unfolded One_nat_def] sample_env_sel created_def get_prop_def
        after_orders_def fresh_def
        del: create_resource_from_def.simps(2)
        add: create_resource_from_def.simps(2)[of _ _ "Suc 0"])
qed

lemma orders_live_sel:
  "lasts orders_live [Suc 0] = Some (live 2)" "lasts orders_live [0] = None"
  "trace orders_live = []" "draws orders_live = 0" "cleanups orders_live = []"
  by (simp_all add: orders_live_def fresh_def)

text \<open>
  C1 (amended). The claim: with \<open>last\<close> set, the call returns at once, before any candidate
  is made or dependency resolved, with no remote call. The code tests \<open>def.last\<close> only after
  the dependency loop: \<open>orders\<close> has a live instance and \<open>users\<close> has none, and the call on
  \<open>orders\<close> creates an instance of \<open>users\<close> remotely before it returns the cached response.
\<close>

theorem cached_create_still_creates_dependency:
  "lasts orders_live [1] = Some (live 2)
   \<and> lasts orders_live [0] = None
   \<and> create_resource_from_def (sample_env 204) sample_defs 2 [1] orders_live
       = Returns (Some (created 2 []))
           (orders_live\<lparr>draws := 1,
              trace := [Create [(''users'', [])] users_candidate],
              lasts := (lasts orders_live)([0] \<mapsto>
                 \<lparr>last_id = JNum 1, last_obj = created 1 users_candidate\<rparr>)\<rparr>)"
proof -
  have two: "(2::nat) = Suc (Suc 0)" by simp
  from create_orders_cached[OF orders_live_sel(1,2), of 204 0] show ?thesis
    unfolding two by (simp add: orders_live_sel live_def)
qed

text \<open>
  C1 as amended: with \<open>last\<close> set, the call still makes a candidate and runs the dependency
  loop (looking each dependency up and calling itself on it); when that loop returns, the
  call returns the cached response \<open>def.last.obj\<close> in the state the loop ended in, so that it
  makes no remote call of its own, and \<open>last\<close> of the definition is what it was.
\<close>

theorem cached_definition_still_resolves_dependencies:
  assumes "lasts s d = Some l"
    and "make_test_object E all_defs s d = Inr (inst, deps, k)"
    and "resolve_deps all_defs (create_resource_from_def E all_defs n) deps inst
           (s\<lparr>draws := k\<rparr>) = Returns inst' s1"
  shows "create_resource_from_def E all_defs (Suc n) d s = Returns (Some (last_obj l)) s1
         \<and> lasts s1 d = Some l"
proof -
  from assms(3) have "lasts_kept (s\<lparr>draws := k\<rparr>) s1"
    by (rule resolve_deps_keeps[rotated]) (rule create_resource_from_def_keeps)
  with assms(1) have "lasts s1 d = Some l" by (simp add: lasts_kept_def)
  with assms(2,3) show ?thesis by (simp add: create_or_cached_def)
qed

text \<open>Witness: \<open>orders\<close> cached, its dependency \<open>users\<close> not.\<close>

theorem cached_definition_still_resolves_dependencies_witness:
  "create_resource_from_def (sample_env 204) sample_defs (Suc 1) [1] orders_live
     = Returns (Some (last_obj (live 2)))
         (orders_live\<lparr>draws := 1,
            trace := [Create [(''users'', [])] users_candidate],
            lasts := (lasts orders_live)([0] \<mapsto>
               \<lparr>last_id = JNum 1, last_obj = created 1 users_candidate\<rparr>)\<rparr>)
   \<and> lasts (orders_live\<lparr>draws := 1,
            trace := [Create [(''users'', [])] users_candidate],
            lasts := (lasts orders_live)([0] \<mapsto>
               \<lparr>last_id = JNum 1, last_obj = created 1 users_candidate\<rparr>)\<rparr>) [1]
       = Some (live 2)"
proof -
  let ?E = "sample_env 204"
  let ?s1 = "orders_live\<lparr>draws := 1,
            trace := [Create [(''users'', [])] users_candidate],
            lasts := (lasts orders_live)([0] \<mapsto>
               \<lparr>last_id = JNum 1, last_obj = created 1 users_candidate\<rparr>)\<rparr>"
  have cached: "lasts orders_live [1] = Some (live 2)"
    by (simp add: orders_live_sel)
  have made: "make_test_object ?E sample_defs orders_live [1]
                = Inr ([], [\<lparr>dep_field = ''user_id'', dep_from = ''users''\<rparr>], 0)"
    by (simp add: make_orders_any orders_live_sel)
  have resolved: "resolve_deps sample_defs (create_resource_from_def ?E sample_defs 1)
                    [\<lparr>dep_field = ''user_id'', dep_from = ''users''\<rparr>] []
                    (orders_live\<lparr>draws := 0\<rparr>)
                  = Returns [(''user_id'', JNum 1)] ?s1"
    by (simp add: find_users create_users_fresh orders_live_sel created_def get_prop_def
        del: create_resource_from_def.simps)
  from cached_definition_still_resolves_dependencies[OF cached made resolved]
  show ?thesis .
qed

text \<open>
  C2. If a call for a definition returned a response, then a second call for it, with the
  same recursion budget, in any later state in which no \<open>last\<close> has been cleared or
  replaced, returns the identical response, the one cached in \<open>last\<close> of the definition, and
  changes nothing but the number of draws: no remote call is made, for this definition or
  for any other.
\<close>

theorem second_create_returns_cached_instance:
  assumes "create_resource_from_def E all_defs n d s = Returns (Some r) s1"
    and "lasts_kept s1 t"
  shows "(\<exists>k. create_resource_from_def E all_defs n d t = Returns (Some r) (t\<lparr>draws := k\<rparr>))
         \<and> (\<exists>l. lasts s1 d = Some l \<and> lasts t d = Some l \<and> last_obj l = r)"
proof -
  from assms(1) have "n \<noteq> 0" by (cases n) simp_all
  then obtain m where n: "n = Suc m" by (cases n) simp_all
  from assms(1) obtain inst s' where
    "create_or_cached E all_defs d inst s' = Returns (Some r) s1"
    unfolding n by (auto split: sum.splits outcome.splits)
  from create_or_cached_result[OF this] assms(2)
  have "\<exists>l. lasts s1 d = Some l \<and> lasts t d = Some l \<and> last_obj l = r"
    by (auto simp: lasts_kept_def)
  with create_resource_from_def_replay[OF assms] show ?thesis by simp
qed

text \<open>Witness: \<open>orders\<close> created from scratch, then asked for again.\<close>

theorem second_create_returns_cached_instance_witness:
  "(\<exists>k. create_resource_from_def (sample_env 204) sample_defs 2 [1] after_orders
          = Returns (Some (created 2 [(''user_id'', JNum 1)])) (after_orders\<lparr>draws := k\<rparr>))
   \<and> (\<exists>l. lasts after_orders [1] = Some l \<and> last_obj l = created 2 [(''user_id'', JNum 1)])"
  using second_create_returns_cached_instance
          [OF create_orders_from_scratch lasts_kept_refl[of after_orders]]
  by blast

text \<open>The sample with a remote that refuses every create.\<close>

lemma refusing_env_sel:
  "singular refusing_env = singular (sample_env 204)"
  "random_floor refusing_env = random_floor (sample_env 204)"
  "random_bytes refusing_env = random_bytes (sample_env 204)"
  "moment_format refusing_env = moment_format (sample_env 204)"
  "uuid_v4 refusing_env = uuid_v4 (sample_env 204)"
  "has_member refusing_env api m"
  "remote refusing_env tr ev = Resolved (Some refusal)"
  by (simp_all add: refusing_env_def sample_env_sel)

lemma bind_users_refusing:
  "get_api_for_def refusing_env sample_defs s [0] = Inr [(''users'', [])]"
  unfolding get_api_for_def_def resource_names.simps[of _ "[0]"] users_is_first
  by (simp add: parent_def users_def refusing_env_sel)

lemma make_users_refusing:
  "make_test_object refusing_env sample_defs s [0] = Inr (users_candidate, [], Suc (draws s))"
  unfolding make_test_object_def users_is_first
  by (simp add: users_def make_field_def make_value_def make_by_type_def plain_field_def
      refusing_env_sel sample_env_sel users_candidate_def)

text \<open>
  C3 (code differs). The claim: a response whose body carries an error message is not
  cached, so that the next call creates from scratch. The code caches every truthy
  response: the refusal becomes \<open>last\<close> of \<open>users\<close>, with \<open>undefined\<close> as id, and the second
  call returns it again without a remote call.
\<close>

theorem error_response_is_cached:
  "create_resource_from_def refusing_env sample_defs 1 [0] fresh = Returns (Some refusal) refused
   \<and> lasts refused [0] = Some \<lparr>last_id = JUndefined, last_obj = refusal\<rparr>
   \<and> create_resource_from_def refusing_env sample_defs 1 [0] refused
       = Returns (Some refusal) (refused\<lparr>draws := 2\<rparr>)"
proof -
  have first: "create_resource_from_def refusing_env sample_defs (Suc 0) [0] fresh
                 = Returns (Some refusal) refused"
    by (simp add: make_users_refusing create_or_cached_def bind_users_refusing refusing_env_sel
        fresh_def refused_def) (simp add: refusal_def get_prop_def)
  have cached: "lasts refused [0] = Some \<lparr>last_id = JUndefined, last_obj = refusal\<rparr>"
    by (simp add: refused_def)
  have second: "create_resource_from_def refusing_env sample_defs (Suc 0) [0] refused
                 = Returns (Some refusal) (refused\<lparr>draws := 2\<rparr>)"
    by (simp add: make_users_refusing create_or_cached_def cached) (simp add: refused_def)
  from first cached second show ?thesis by simp
qed

end
